theory Spec2Isabelle
  imports Main "HOL-Library.Word" "HOL-Library.AList"
begin

unbundle bit_operations_syntax

section \<open>Types, values and typed columns\<close>

text \<open>
  The type universe of package \<open>typeof\<close>. The constructors carry a \<open>T\<close> prefix because
  \<open>String\<close> and \<open>Bool\<close> are taken in HOL.
\<close>

datatype Type =
  TUnsupported | TString | TInt32 | TInt64 | TFloat64 | TBool | TTimestamp | TJSON

text \<open>
  A Go \<open>interface{}\<close> value handed to a column. \<open>VNil\<close> is Go's \<open>nil\<close>; a float is kept
  as its 64 bits; \<open>VOther\<close> stands for a value of any other dynamic type (for example
  \<open>complex128\<close>).
\<close>

datatype val =
  VNil
  | VStr string
  | VInt32 "32 word"
  | VInt64 "64 word"
  | VFloat64 "64 word"
  | VBool bool
  | VTime int int
  | VJSON string
  | VOther

fun kind_of_val :: "val \<Rightarrow> Type" where
  "kind_of_val VNil = TUnsupported"
| "kind_of_val (VStr _) = TString"
| "kind_of_val (VInt32 _) = TInt32"
| "kind_of_val (VInt64 _) = TInt64"
| "kind_of_val (VFloat64 _) = TFloat64"
| "kind_of_val (VBool _) = TBool"
| "kind_of_val (VTime _ _) = TTimestamp"
| "kind_of_val (VJSON _) = TJSON"
| "kind_of_val VOther = TUnsupported"

text \<open>
  Modelled from the spec: the typed column buffers (\<open>presto.Column\<close> and its seven
  implementations) are not among the sources. A column is an appendable, typed, nullable
  vector: one cell per appended value, \<open>None\<close> being the null marker. Appending \<open>nil\<close>
  records a null; a value whose dynamic type is not the column's is recorded as a null as
  well. The number of bytes an append adds is implementation-defined, so it is the
  parameter \<open>sz\<close> of every operation that reports it.
\<close>

record Column =
  Kind :: Type
  cells :: "val option list"

type_synonym sizing = "Type \<Rightarrow> val option \<Rightarrow> int"

definition Count :: "Column \<Rightarrow> int" where
  "Count col = int (length (cells col))"

definition cell_of :: "Type \<Rightarrow> val \<Rightarrow> val option" where
  "cell_of t v = (if v \<noteq> VNil \<and> kind_of_val v = t then Some v else None)"

definition col_Append :: "sizing \<Rightarrow> Column \<Rightarrow> val \<Rightarrow> int \<times> Column" where
  "col_Append sz col v =
     (let cell = cell_of (Kind col) v
      in (sz (Kind col) cell, col\<lparr>cells := cells col @ [cell]\<rparr>))"

datatype error = Panic string | Closed | Internal string string

text \<open>\<open>NewColumn\<close> of column.go: one empty column per supported type, a panic otherwise.\<close>

definition NewColumn :: "Type \<Rightarrow> error + Column" where
  "NewColumn t =
     (if t = TUnsupported then Inl (Panic ''presto: unknown type'')
      else Inr \<lparr>Kind = t, cells = []\<rparr>)"

section \<open>Column names\<close>

text \<open>
  \<open>IsValidName\<close> matches the name against \<open>^[a-zA-Z_][a-zA-Z0-9_]*$\<close>. Go's \<open>$\<close> without
  the multi-line flag matches at the end of the text only, so the whole name is one head
  character followed by tail characters.
\<close>

definition is_letter :: "char \<Rightarrow> bool" where
  "is_letter c = (let n = (of_char c :: nat) in (65 \<le> n \<and> n \<le> 90) \<or> (97 \<le> n \<and> n \<le> 122))"

definition is_digit :: "char \<Rightarrow> bool" where
  "is_digit c = (let n = (of_char c :: nat) in 48 \<le> n \<and> n \<le> 57)"

definition is_head :: "char \<Rightarrow> bool" where
  "is_head c = (is_letter c \<or> c = CHR ''_'')"

definition is_tail :: "char \<Rightarrow> bool" where
  "is_tail c = (is_letter c \<or> is_digit c \<or> c = CHR ''_'')"

fun IsValidName :: "string \<Rightarrow> bool" where
  "IsValidName [] = False"
| "IsValidName (c # cs) = (is_head c \<and> list_all is_tail cs)"

section \<open>Column sets\<close>

text \<open>
  \<open>Columns\<close> is a Go map from names to columns. It is an association list here, so that
  the loops over it can run; a name occurs at most once in a Go map, and every name is
  bound to a column object of its own (which is how \<open>Append\<close> and \<open>MakeColumns\<close> create
  them). Go's \<open>int\<close> is 64 bits wide; counts are far below that, so they are \<open>int\<close>.
\<close>

type_synonym Columns = "(string \<times> Column) list"

text \<open>\<open>Max\<close>: the named result starts at zero and grows with every larger count.\<close>

fun Max_from :: "int \<Rightarrow> Columns \<Rightarrow> int" where
  "Max_from m [] = m"
| "Max_from m ((name, column) # rest) =
     Max_from (if Count column > m then Count column else m) rest"

definition Max_of :: "Columns \<Rightarrow> int" where
  "Max_of c = Max_from 0 c"

text \<open>The inner loop \<open>for i := 0; i < n; i++ { size += column.Append(nil) }\<close>.\<close>

fun append_nulls :: "sizing \<Rightarrow> nat \<Rightarrow> int \<times> Column \<Rightarrow> int \<times> Column" where
  "append_nulls sz 0 acc = acc"
| "append_nulls sz (Suc n) (bytes, column) =
     (let (added, column') = col_Append sz column VNil
      in append_nulls sz n (bytes + added, column'))"

fun fill_each :: "sizing \<Rightarrow> int \<Rightarrow> int \<Rightarrow> Columns \<Rightarrow> int \<times> Columns" where
  "fill_each sz mx bytes [] = (bytes, [])"
| "fill_each sz mx bytes ((name, column) # rest) =
     (let delta = mx - Count column;
          (bytes', column') = append_nulls sz (nat delta) (bytes, column);
          (bytes'', rest') = fill_each sz mx bytes' rest
      in (bytes'', (name, column') # rest'))"

definition FillNulls :: "sizing \<Rightarrow> Columns \<Rightarrow> int \<times> Columns" where
  "FillNulls sz c = fill_each sz (Max_of c) 0 c"

text \<open>\<open>Columns.Append\<close>: the bytes added and the set after the call, or the panic.\<close>

definition Append :: "sizing \<Rightarrow> Columns \<Rightarrow> string \<Rightarrow> val \<Rightarrow> Type \<Rightarrow> error + int \<times> Columns" where
  "Append sz c name v typ =
     (if \<not> IsValidName name then Inr (0, c)
      else case map_of c name of
        Some col \<Rightarrow>
          (let (added, col') = col_Append sz col v
           in Inr (added, AList.update name col' c))
      | None \<Rightarrow>
          if typ = TUnsupported then Inr (0, c)
          else case NewColumn typ of
            Inl e \<Rightarrow> Inl e
          | Inr newColumn \<Rightarrow>
              (let until = Max_of c - 1;
                   (bytes, padded) = append_nulls sz (nat until) (0, newColumn);
                   (added, final) = col_Append sz padded v
               in Inr (bytes + added, c @ [(name, final)])))"

text \<open>A column followed by the nulls it is short of \<open>mx\<close> cells.\<close>

definition pad_to :: "int \<Rightarrow> Column \<Rightarrow> Column" where
  "pad_to mx col = col\<lparr>cells := cells col @ replicate (nat (mx - Count col)) None\<rparr>"

text \<open>Inputs of the concrete checks: a sizing of one byte per cell, and a two-column set.\<close>

definition unit_sizing :: sizing where
  "unit_sizing t cell = 1"

definition level1 :: Columns where
  "level1 = [(''a'', \<lparr>Kind = TInt32, cells = [Some (VInt32 1), Some (VInt32 1)]\<rparr>),
             (''b'', \<lparr>Kind = TInt32, cells = [Some (VInt32 2)]\<rparr>)]"

section \<open>The row-buffer store (disk.go)\<close>

type_synonym Key = "8 word list"

text \<open>
  The LSM engine is an external library. What the store sees of it is modelled here: the
  committed entries in key order, a write transaction as the keys it is about to delete,
  and the engine's answers. The answers are a parameter: \<open>txn_Delete\<close> is asked with the
  pending keys of the transaction and the key, \<open>txn_Commit\<close> with the committed entries
  and the pending keys. A successful commit removes the pending keys.
\<close>

datatype reply = Done | ErrTxnTooBig | Failed string

record engine =
  txn_Delete :: "Key list \<Rightarrow> Key \<Rightarrow> reply"
  txn_Commit :: "(Key \<times> 8 word list) list \<Rightarrow> Key list \<Rightarrow> string option"
  ValueCopy_ok :: "Key \<Rightarrow> bool"

record Storage =
  closed :: bool
  db :: "(Key \<times> 8 word list) list"

definition apply_deletes :: "Key list \<Rightarrow> (Key \<times> 8 word list) list \<Rightarrow> (Key \<times> 8 word list) list" where
  "apply_deletes ks entries = filter (\<lambda>(k, v). k \<notin> set ks) entries"

text \<open>
  The loop of \<open>Storage.Delete\<close> over the keys. The state is the committed entries and the
  open transaction; an error carries the cause and the entries committed so far.
\<close>

fun delete_loop ::
  "engine \<Rightarrow> Key list \<Rightarrow> (Key \<times> 8 word list) list \<times> Key list
     \<Rightarrow> (string \<times> (Key \<times> 8 word list) list) + ((Key \<times> 8 word list) list \<times> Key list)" where
  "delete_loop eng [] (entries, txn) = Inr (entries, txn)"
| "delete_loop eng (key # keys) (entries, txn) =
     (case txn_Delete eng txn key of
        ErrTxnTooBig \<Rightarrow>
          (case txn_Commit eng entries txn of
             Some cause \<Rightarrow> Inl (cause, entries)
           | None \<Rightarrow>
               (let entries' = apply_deletes txn entries
                in case txn_Delete eng [] key of
                     Done \<Rightarrow> delete_loop eng keys (entries', [key])
                   | ErrTxnTooBig \<Rightarrow> Inl (''ErrTxnTooBig'', entries')
                   | Failed cause \<Rightarrow> Inl (cause, entries')))
      | Failed cause \<Rightarrow> Inl (cause, entries)
      | Done \<Rightarrow> delete_loop eng keys (entries, txn @ [key]))"

definition Delete :: "engine \<Rightarrow> Storage \<Rightarrow> Key list \<Rightarrow> error option \<times> Storage" where
  "Delete eng s keys =
     (if closed s then (Some Closed, s)
      else case delete_loop eng keys (db s, []) of
        Inl (cause, entries) \<Rightarrow> (Some (Internal ''unable to delete'' cause), s\<lparr>db := entries\<rparr>)
      | Inr (entries, txn) \<Rightarrow>
          (case txn_Commit eng entries txn of
             Some cause \<Rightarrow> (Some (Internal ''unable to delete'' cause), s\<lparr>db := entries\<rparr>)
           | None \<Rightarrow> (None, s\<lparr>db := apply_deletes txn entries\<rparr>)))"

text \<open>
  An engine whose only refusal is \<open>ErrTxnTooBig\<close>, given for a transaction that holds
  \<open>limit\<close> keys already.
\<close>

definition bounded_engine :: "nat \<Rightarrow> engine" where
  "bounded_engine limit =
     \<lparr>txn_Delete = (\<lambda>txn key. if limit \<le> length txn \<and> txn \<noteq> [] then ErrTxnTooBig else Done),
      txn_Commit = (\<lambda>entries txn. None),
      ValueCopy_ok = (\<lambda>key. True)\<rparr>"

text \<open>\<open>bytes.Compare\<close>: lexicographic order on unsigned bytes, as -1, 0 or 1.\<close>

fun Compare :: "Key \<Rightarrow> Key \<Rightarrow> int" where
  "Compare [] [] = 0"
| "Compare [] (b # bs) = - 1"
| "Compare (a # as) [] = 1"
| "Compare (a # as) (b # bs) = (if a < b then - 1 else if b < a then 1 else Compare as bs)"

text \<open>
  Modelled from the spec: package \<open>key\<close> is not among the sources. \<open>PrefixOf\<close> is the
  longest common byte prefix of its arguments.
\<close>

fun PrefixOf :: "Key \<Rightarrow> Key \<Rightarrow> Key" where
  "PrefixOf (a # as) (b # bs) = (if a = b then a # PrefixOf as bs else [])"
| "PrefixOf [] bs = []"
| "PrefixOf as [] = []"

definition HasPrefix :: "Key \<Rightarrow> Key \<Rightarrow> bool" where
  "HasPrefix k p = (take (length p) k = p)"

text \<open>
  The loop of \<open>Storage.Range\<close> over the items of the iterator: stop at the first key above
  \<open>until\<close>; fetch the value; call \<open>f\<close> when the fetch succeeded, and stop when \<open>f\<close> returns
  true. The callback is a closure over variables of its caller, so it takes their state
  and returns it.
\<close>

fun range_loop ::
  "engine \<Rightarrow> Key \<Rightarrow> (Key \<Rightarrow> 8 word list \<Rightarrow> 's \<Rightarrow> bool \<times> 's) \<Rightarrow> (Key \<times> 8 word list) list \<Rightarrow> 's \<Rightarrow> 's" where
  "range_loop eng until f [] st = st"
| "range_loop eng until f ((key, v) # items) st =
     (if Compare key until > 0 then st
      else if ValueCopy_ok eng key then
        (case f key v st of (stop, st') \<Rightarrow> if stop then st' else range_loop eng until f items st')
      else range_loop eng until f items st)"

text \<open>
  The iterator is opened with the prefix \<open>PrefixOf seek until\<close> and positioned by
  \<open>Seek(seek)\<close>: it yields, in key order, the entries from the first key that is not below
  \<open>seek\<close> for as long as the keys carry the prefix.
\<close>

definition iterator_items :: "Storage \<Rightarrow> Key \<Rightarrow> Key \<Rightarrow> (Key \<times> 8 word list) list" where
  "iterator_items s seek until =
     takeWhile (\<lambda>(k, v). HasPrefix k (PrefixOf seek until))
       (dropWhile (\<lambda>(k, v). Compare k seek < 0) (db s))"

definition Range ::
  "engine \<Rightarrow> Storage \<Rightarrow> Key \<Rightarrow> Key \<Rightarrow> (Key \<Rightarrow> 8 word list \<Rightarrow> 's \<Rightarrow> bool \<times> 's) \<Rightarrow> 's \<Rightarrow> error option \<times> 's" where
  "Range eng s seek until f st =
     (if closed s then (Some Closed, st)
      else (None, range_loop eng until f (iterator_items s seek until) st))"

section \<open>Schemas and blocks\<close>

text \<open>
  A schema is a Go map from column names to types; it is an association list here, one
  entry per name, listed in the order in which \<open>schema.Columns()\<close> returns the names.
\<close>

type_synonym Schema = "(string \<times> Type) list"

definition schema_Columns :: "Schema \<Rightarrow> string list" where
  "schema_Columns schema = map fst schema"

text \<open>
  Modelled from the spec: package \<open>block\<close> is not among the sources but for its tests and
  one decoder. A block carries a schema and one column per schema entry. \<open>Select\<close> returns
  the columns whose names appear in the schema it is given, \<open>LastRow\<close> the last value of
  every column; both return an error when the payload of the block cannot be read, which
  is \<open>blk_columns = None\<close>.
\<close>

record Block =
  blk_schema :: Schema
  blk_columns :: "Columns option"

definition Select :: "Block \<Rightarrow> Schema \<Rightarrow> string + Columns" where
  "Select b sch =
     (case blk_columns b of
        None \<Rightarrow> Inl ''block: unable to read''
      | Some cols \<Rightarrow> Inr (filter (\<lambda>(name, col). name \<in> set (map fst sch)) cols))"

definition Last :: "Column \<Rightarrow> val option" where
  "Last col = (if cells col = [] then None else last (cells col))"

definition LastRow :: "Block \<Rightarrow> string + (string \<times> val option) list" where
  "LastRow b =
     (case blk_columns b of
        None \<Rightarrow> Inl ''block: unable to read''
      | Some cols \<Rightarrow> Inr (map (\<lambda>(name, col). (name, Last col)) cols))"

section \<open>The ORC merger (flush.go)\<close>

text \<open>
  The ORC library, the schema derivation and the file-name function are collaborators of
  \<open>Storage.Merge\<close>; they are the fields of \<open>merger\<close>. The writer is the list of column
  lists it has been handed so far, \<open>WriteColumns_ok\<close> and \<open>Close_ok\<close> say whether the
  library reports success, and \<open>orc_bytes\<close> is the payload the buffer holds after the
  writer is closed. The error of \<open>NewWriter\<close> is never read by the source.
\<close>

record merger =
  SchemaFor_ok :: "Schema \<Rightarrow> bool"
  WriteColumns_ok :: "Column option list list \<Rightarrow> Column option list \<Rightarrow> bool"
  Close_ok :: "Column option list list \<Rightarrow> bool"
  orc_bytes :: "Column option list list \<Rightarrow> 8 word list"
  fileNameFunc :: "(string \<times> val option) list \<Rightarrow> string option"

definition bytes_of :: "string \<Rightarrow> 8 word list" where
  "bytes_of str = map (\<lambda>c. of_nat (of_char c)) str"

text \<open>
  The body of the loop \<open>for name, typ := range schema\<close>: the block's column when it is
  there and of the type the schema asks for, a new empty column of that type otherwise.
\<close>

definition choose_column :: "Columns \<Rightarrow> string \<Rightarrow> Type \<Rightarrow> error + Column" where
  "choose_column rows name typ =
     (case map_of rows name of
        None \<Rightarrow> NewColumn typ
      | Some col \<Rightarrow> if Kind col \<noteq> typ then NewColumn typ else Inr col)"

fun pick_columns :: "Columns \<Rightarrow> Schema \<Rightarrow> error + Columns" where
  "pick_columns rows [] = Inr []"
| "pick_columns rows ((name, typ) # rest) =
     (case choose_column rows name typ of
        Inl e \<Rightarrow> Inl e
      | Inr col \<Rightarrow>
          (case pick_columns rows rest of
             Inl e \<Rightarrow> Inl e
           | Inr cols \<Rightarrow> Inr ((name, col) # cols)))"

text \<open>
  The loop over the blocks. \<open>Inr None\<close> is the early \<open>return nil, nil\<close> after a failed
  \<open>WriteColumns\<close>; a block whose \<open>Select\<close> fails is passed over.
\<close>

fun merge_blocks ::
  "merger \<Rightarrow> sizing \<Rightarrow> Schema \<Rightarrow> Block list \<Rightarrow> Column option list list
     \<Rightarrow> error + Column option list list option" where
  "merge_blocks m sz schema [] written = Inr (Some written)"
| "merge_blocks m sz schema (blk # rest) written =
     (case Select blk (blk_schema blk) of
        Inl err \<Rightarrow> merge_blocks m sz schema rest written
      | Inr rows \<Rightarrow>
          (case pick_columns rows schema of
             Inl e \<Rightarrow> Inl e
           | Inr cols \<Rightarrow>
               (let filled = snd (FillNulls sz cols);
                    colIterator = map (map_of filled) (schema_Columns schema)
                in if WriteColumns_ok m written colIterator
                   then merge_blocks m sz schema rest (written @ [colIterator])
                   else Inr None)))"

definition generateFileName :: "merger \<Rightarrow> Block \<Rightarrow> 8 word list" where
  "generateFileName m b =
     (case LastRow b of
        Inl err \<Rightarrow> []
      | Inr row \<Rightarrow>
          (case fileNameFunc m row of
             None \<Rightarrow> []
           | Some output \<Rightarrow> bytes_of output))"

text \<open>
  \<open>Storage.Merge\<close>. The two nil slices of \<open>return nil, nil\<close> are two empty lists; \<open>Inl\<close> is
  a panic: of \<open>NewColumn\<close>, or of \<open>blocks[0]\<close> on an empty slice.
\<close>

definition Merge :: "merger \<Rightarrow> sizing \<Rightarrow> Block list \<Rightarrow> Schema \<Rightarrow> error + (8 word list \<times> 8 word list)" where
  "Merge m sz blocks schema =
     (if \<not> SchemaFor_ok m schema then Inr ([], [])
      else case merge_blocks m sz schema blocks [] of
        Inl e \<Rightarrow> Inl e
      | Inr None \<Rightarrow> Inr ([], [])
      | Inr (Some written) \<Rightarrow>
          if \<not> Close_ok m written then Inr ([], [])
          else (case blocks of
                  [] \<Rightarrow> Inl (Panic ''index out of range [0] with length 0'')
                | b # bs \<Rightarrow> Inr (generateFileName m b, orc_bytes m written)))"

section \<open>The compactor (compact.go)\<close>

text \<open>
  The compactor holds its buffer, its destination and its merger behind interfaces, and
  packages \<open>key\<close>, \<open>block\<close> and \<open>typeof\<close> are not among the sources: \<open>FromBuffer\<close>,
  \<open>HashOf\<close> (a \<open>uint32\<close> in compact.go), \<open>Union\<close>, the keys \<open>First\<close> and \<open>Last\<close>, the merger
  and the destination are the fields of \<open>compactor\<close>. The buffer is the disk store above.
  \<open>dest_Append\<close> is asked with what the destination has accepted so far.
\<close>

record compactor =
  FromBuffer :: "8 word list \<Rightarrow> Block option"
  key_HashOf :: "Key \<Rightarrow> 32 word"
  Union :: "Schema \<Rightarrow> Schema \<Rightarrow> Schema \<times> bool"
  key_First :: Key
  key_Last :: Key
  merger_Merge :: "Block list \<Rightarrow> Schema \<Rightarrow> error + (8 word list \<times> 8 word list)"
  dest_Append :: "(8 word list \<times> 8 word list) list \<Rightarrow> 8 word list \<Rightarrow> 8 word list \<Rightarrow> error option"

type_synonym task = "Key list \<times> Block list \<times> Schema"

text \<open>
  The variables the range callback of \<open>Compact\<close> closes over, the merge tasks it has put on
  the channel, and what it has logged.
\<close>

record scan =
  hash :: "32 word"
  blocks :: "Block list"
  merged :: "Key list"
  schema :: Schema
  tasks :: "task list"
  scan_logged :: "string list"

definition scan_start :: scan where
  "scan_start = \<lparr>hash = 0, blocks = [], merged = [], schema = [], tasks = [], scan_logged = []\<rparr>"

text \<open>The range callback of \<open>Compact\<close>.\<close>

definition visit :: "compactor \<Rightarrow> Key \<Rightarrow> 8 word list \<Rightarrow> scan \<Rightarrow> bool \<times> scan" where
  "visit c k v st =
     (case FromBuffer c v of
        None \<Rightarrow> (True, st\<lparr>scan_logged := scan_logged st @ [''compact: unable to read a buffer'']\<rparr>)
      | Some input \<Rightarrow>
          (let previous = hash st;
               h = key_HashOf c k;
               (mergedSchema, ok) = Union c (schema st) (blk_schema input)
           in if previous = 0 \<or> (ok \<and> h = previous)
              then (False, st\<lparr>hash := h, blocks := blocks st @ [input],
                              merged := merged st @ [k], schema := mergedSchema\<rparr>)
              else (False, st\<lparr>hash := h, blocks := [], merged := [], schema := [],
                              tasks := tasks st @ [(merged st, blocks st, schema st)]\<rparr>)))"

text \<open>
  What a tick works on: the buffer, what the destination has accepted, and the log.
\<close>

record world =
  buffer :: Storage
  sink :: "(8 word list \<times> 8 word list) list"
  logged :: "string list"

text \<open>
  How a merge task ended: it appended and deleted, or it returned the error of the
  destination's \<open>Append\<close>, or that of the buffer's \<open>Delete\<close>. \<open>outcome_error\<close> is the
  error the task returns.
\<close>

datatype outcome = Completed | AppendFailed error | DeleteFailed error

fun outcome_error :: "outcome \<Rightarrow> error option" where
  "outcome_error Completed = None"
| "outcome_error (AppendFailed e) = Some e"
| "outcome_error (DeleteFailed e) = Some e"

text \<open>
  The body of a merge task. \<open>Inl\<close> is a panic of the merger; otherwise how the task
  ended, and the world after it.
\<close>

definition run_task :: "engine \<Rightarrow> compactor \<Rightarrow> world \<Rightarrow> task \<Rightarrow> error + (outcome \<times> world)" where
  "run_task eng c w t =
     (case t of (keys, blks, sch) \<Rightarrow>
        (case merger_Merge c blks sch of
           Inl e \<Rightarrow> Inl e
         | Inr (key, v) \<Rightarrow>
             (case dest_Append c (sink w) key v of
                Some err \<Rightarrow>
                  Inr (AppendFailed err, w\<lparr>logged := logged w @ [''compact: unable to merge'']\<rparr>)
              | None \<Rightarrow>
                  (let w1 = w\<lparr>sink := sink w @ [(key, v)]\<rparr>;
                       (err, buffer') = Delete eng (buffer w1) keys
                   in case err of
                        Some e \<Rightarrow>
                          Inr (DeleteFailed e,
                               w1\<lparr>buffer := buffer',
                                  logged := logged w1 @ [''compact: unable to delete a key'']\<rparr>)
                      | None \<Rightarrow> Inr (Completed, w1\<lparr>buffer := buffer'\<rparr>)))))"

text \<open>
  The tasks are taken from the channel in the order in which they were put there and run
  one after the other, which is what one worker does; how several workers interleave is
  not modelled. The scan reads a snapshot of the buffer, so the tasks can run after it.
\<close>

fun run_tasks :: "engine \<Rightarrow> compactor \<Rightarrow> world \<Rightarrow> task list \<Rightarrow> error + (outcome list \<times> world)" where
  "run_tasks eng c w [] = Inr ([], w)"
| "run_tasks eng c w (t # ts) =
     (case run_task eng c w t of
        Inl e \<Rightarrow> Inl e
      | Inr (r, w') \<Rightarrow>
          (case run_tasks eng c w' ts of
             Inl e \<Rightarrow> Inl e
           | Inr (rs, w'') \<Rightarrow> Inr (r # rs, w'')))"

definition scan_buffer :: "engine \<Rightarrow> compactor \<Rightarrow> Storage \<Rightarrow> error option \<times> scan" where
  "scan_buffer eng c s = Range eng s (key_First c) (key_Last c) (visit c) scan_start"

text \<open>
  \<open>Compact\<close>: the scan, then the last merge, whose outcome is the outcome of the tick. The
  result is the error \<open>Compact\<close> returns, how the tasks ended, in order, and the world
  after the tick; \<open>Inl\<close> is a panic.
\<close>

definition Compact ::
  "engine \<Rightarrow> compactor \<Rightarrow> world \<Rightarrow> error + (error option \<times> outcome list \<times> world)" where
  "Compact eng c w =
     (case scan_buffer eng c (buffer w) of (range_err, st) \<Rightarrow>
        (let w0 = w\<lparr>logged := logged w @ scan_logged st\<rparr>
         in case range_err of
              Some e \<Rightarrow>
                (case run_tasks eng c w0 (tasks st) of
                   Inl p \<Rightarrow> Inl p
                 | Inr (rs, w') \<Rightarrow> Inr (Some e, rs, w'))
            | None \<Rightarrow>
                (case run_tasks eng c w0 (tasks st) of
                   Inl p \<Rightarrow> Inl p
                 | Inr (rs, w') \<Rightarrow>
                     (case run_task eng c w' (merged st, blocks st, schema st) of
                        Inl p \<Rightarrow> Inl p
                      | Inr (r, w'') \<Rightarrow> Inr (outcome_error r, rs @ [r], w'')))))"

section \<open>Collaborators for the concrete checks\<close>

text \<open>
  One instance of every parameter, to run the model on concrete buffers: the hash is the
  first four bytes of the key, big-endian; a value of one byte decodes to a block of one
  row and one \<open>Int64\<close> column, any other value does not decode; the union of two schemas
  fails on a name bound to two types; the ORC library and the destination never fail.
\<close>

definition hash32 :: "Key \<Rightarrow> 32 word" where
  "hash32 k =
     (case k of
        a # b # c # d # rest \<Rightarrow>
          push_bit 24 (ucast a) OR push_bit 16 (ucast b) OR push_bit 8 (ucast c) OR ucast d
      | _ \<Rightarrow> 0)"

fun plain_Union :: "Schema \<Rightarrow> Schema \<Rightarrow> Schema \<times> bool" where
  "plain_Union s [] = (s, True)"
| "plain_Union s ((name, typ) # rest) =
     (case map_of s name of
        None \<Rightarrow> plain_Union (s @ [(name, typ)]) rest
      | Some t \<Rightarrow> if t = typ then plain_Union s rest else (s, False))"

definition one_row :: "8 word \<Rightarrow> Block" where
  "one_row b =
     \<lparr>blk_schema = [(''a'', TInt64)],
      blk_columns = Some [(''a'', \<lparr>Kind = TInt64, cells = [Some (VInt64 (ucast b))]\<rparr>)]\<rparr>"

definition decode_one :: "8 word list \<Rightarrow> Block option" where
  "decode_one v = (case v of [b] \<Rightarrow> Some (one_row b) | _ \<Rightarrow> None)"

definition plain_merger :: merger where
  "plain_merger =
     \<lparr>SchemaFor_ok = (\<lambda>sch. True),
      WriteColumns_ok = (\<lambda>written cols. True),
      Close_ok = (\<lambda>written. True),
      orc_bytes = (\<lambda>written. [of_nat (length written)]),
      fileNameFunc = (\<lambda>row. Some ''out'')\<rparr>"

definition plain_compactor :: compactor where
  "plain_compactor =
     \<lparr>FromBuffer = decode_one,
      key_HashOf = hash32,
      Union = plain_Union,
      key_First = [0, 0, 0, 0, 0, 0],
      key_Last = [255, 255, 255, 255, 255, 255],
      merger_Merge = Merge plain_merger unit_sizing,
      dest_Append = (\<lambda>accepted key v. None)\<rparr>"

text \<open>An engine that fails the commit of every transaction that deletes the key \<open>bad\<close>.\<close>

definition failing_engine :: "Key \<Rightarrow> engine" where
  "failing_engine bad =
     \<lparr>txn_Delete = (\<lambda>txn key. Done),
      txn_Commit = (\<lambda>entries txn. if bad \<in> set txn then Some ''engine: commit failed'' else None),
      ValueCopy_ok = (\<lambda>key. True)\<rparr>"

definition key_a1 :: Key where "key_a1 = [0, 0, 0, 1, 0, 1]"
definition key_b1 :: Key where "key_b1 = [0, 0, 0, 2, 0, 1]"
definition key_b2 :: Key where "key_b2 = [0, 0, 0, 2, 0, 2]"
definition key_b3 :: Key where "key_b3 = [0, 0, 0, 2, 0, 3]"

definition world_of :: "(Key \<times> 8 word list) list \<Rightarrow> world" where
  "world_of entries = \<lparr>buffer = \<lparr>closed = False, db = entries\<rparr>, sink = [], logged = []\<rparr>"

text \<open>
  An engine is gentle when its commits succeed, its deletes are accepted or refused with
  \<open>ErrTxnTooBig\<close> only, and a delete into an empty transaction is accepted.
\<close>

definition gentle :: "engine \<Rightarrow> bool" where
  "gentle eng =
     ((\<forall>entries txn. txn_Commit eng entries txn = None)
      \<and> (\<forall>txn key. txn_Delete eng txn key = Done \<or> txn_Delete eng txn key = ErrTxnTooBig)
      \<and> (\<forall>key. txn_Delete eng [] key = Done))"

definition four_entries :: "(Key \<times> 8 word list) list" where
  "four_entries = [(key_a1, [1]), (key_b1, [2]), (key_b2, [3]), (key_b3, [4])]"

text \<open>
  For the properties of a tick: the tasks it runs, the last one included; the keys of the
  tasks that ended in a way \<open>P\<close>; whether a key is in the buffer; and whether the output
  of a task reached the destination.
\<close>

definition tick_tasks :: "scan \<Rightarrow> task list" where
  "tick_tasks st = tasks st @ [(merged st, blocks st, schema st)]"

definition keys_where :: "(outcome \<Rightarrow> bool) \<Rightarrow> task list \<Rightarrow> outcome list \<Rightarrow> Key list" where
  "keys_where P ts rs = concat (map (\<lambda>(t, r). if P r then fst t else []) (zip ts rs))"

definition stored :: "world \<Rightarrow> Key \<Rightarrow> bool" where
  "stored w k = (k \<in> set (map fst (db (buffer w))))"

fun appended :: "outcome \<Rightarrow> bool" where
  "appended Completed = True"
| "appended (DeleteFailed e) = True"
| "appended (AppendFailed e) = False"

fun completed :: "outcome \<Rightarrow> bool" where
  "completed Completed = True"
| "completed (DeleteFailed e) = False"
| "completed (AppendFailed e) = False"

definition unreadable_second :: "(Key \<times> 8 word list) list" where
  "unreadable_second = [(key_b1, [2]), (key_b2, []), (key_b3, [4])]"

definition two_partitions :: "(Key \<times> 8 word list) list" where
  "two_partitions = [(key_a1, [1]), (key_b1, [2]), (key_b2, [3])]"

text \<open>The scan of the buffer \<open>two_partitions\<close>, and the world after its tick.\<close>

definition after_tick :: world where
  "after_tick = \<lparr>buffer = \<lparr>closed = False, db = [(key_b1, [2])]\<rparr>,
                 sink = [(bytes_of ''out'', [1]), (bytes_of ''out'', [1])],
                 logged = []\<rparr>"

definition scan_of_two :: scan where
  "scan_of_two = \<lparr>hash = 2, blocks = [one_row 3], merged = [key_b2], schema = [(''a'', TInt64)],
                  tasks = [([key_a1], [one_row 1], [(''a'', TInt64)])], scan_logged = []\<rparr>"







section \<open>Keys\<close>




section \<open>Rows and their transformation\<close>

text \<open>
  Modelled from the spec: \<open>Row.Transform\<close> of package \<open>block\<close> is not among the sources
  (its test is). A row bears a schema and a map from names to values; rows live in a
  heap, addressed by their position, since the claim is about what a call leaves of its
  input. A computed column is a name, a type and a pure function of the row's values.
  \<open>tryParse\<close> (base-10 integers, floats, RFC 3339 timestamps) is the parameter \<open>parse\<close>.

  \<open>Transform\<close> builds a new row. Without a filter every column is kept. With a filter, a
  column whose name the filter lacks is dropped; one whose type in the filter is the
  source type is kept; one whose type differs is kept, under the filter's type, when its
  value is a string that \<open>parse\<close> accepts, and is absent from the new row otherwise (which
  is what \<open>TestTransform\<close> expects of an integer). Then every computed column is
  evaluated on the input and set in the new row under its name and type.
\<close>

record Row =
  row_schema :: Schema
  row_columns :: "(string \<times> val) list"

record Computed =
  comp_Name :: string
  comp_Type :: Type
  comp_Value :: "(string \<times> val) list \<Rightarrow> val"

definition source_type :: "Row \<Rightarrow> string \<Rightarrow> Type" where
  "source_type r k = (case map_of (row_schema r) k of None \<Rightarrow> TUnsupported | Some t \<Rightarrow> t)"

fun kept_column ::
  "(string \<Rightarrow> Type \<Rightarrow> val option) \<Rightarrow> Row \<Rightarrow> Schema option \<Rightarrow> string \<times> val
     \<Rightarrow> (string \<times> val \<times> Type) option" where
  "kept_column parse r None (k, v) = Some (k, v, source_type r k)"
| "kept_column parse r (Some f) (k, v) =
     (case map_of f k of
        None \<Rightarrow> None
      | Some t \<Rightarrow>
          if t = source_type r k then Some (k, v, t)
          else (case v of
                  VStr str \<Rightarrow>
                    (case parse str t of
                       None \<Rightarrow> None
                     | Some v' \<Rightarrow> Some (k, v', t))
                | _ \<Rightarrow> None))"

definition apply_filter ::
  "(string \<Rightarrow> Type \<Rightarrow> val option) \<Rightarrow> Row \<Rightarrow> Schema option \<Rightarrow> (string \<times> val \<times> Type) list" where
  "apply_filter parse r flt = List.map_filter (kept_column parse r flt) (row_columns r)"

fun append_computed :: "Row \<Rightarrow> Computed list \<Rightarrow> Row \<Rightarrow> Row" where
  "append_computed r [] out = out"
| "append_computed r (c # cs) out =
     append_computed r cs
       (out\<lparr>row_schema := AList.update (comp_Name c) (comp_Type c) (row_schema out),
            row_columns := AList.update (comp_Name c) (comp_Value c (row_columns r)) (row_columns out)\<rparr>)"

definition transform_row ::
  "(string \<Rightarrow> Type \<Rightarrow> val option) \<Rightarrow> Row \<Rightarrow> Computed list \<Rightarrow> Schema option \<Rightarrow> Row" where
  "transform_row parse r computed flt =
     (let kept = apply_filter parse r flt
      in append_computed r computed
           \<lparr>row_schema = map (\<lambda>(k, v, t). (k, t)) kept,
            row_columns = map (\<lambda>(k, v, t). (k, v)) kept\<rparr>)"

text \<open>
  \<open>Transform\<close> on the row at address \<open>a\<close>: the address of the new row and the heap after
  the call. A call on no row is a panic.
\<close>

definition Transform ::
  "(string \<Rightarrow> Type \<Rightarrow> val option) \<Rightarrow> Row list \<Rightarrow> nat \<Rightarrow> Computed list \<Rightarrow> Schema option
     \<Rightarrow> error + (nat \<times> Row list)" where
  "Transform parse heap a computed flt =
     (if a < length heap
      then Inr (length heap, heap @ [transform_row parse (heap ! a) computed flt])
      else Inl (Panic ''nil row''))"

text \<open>The row, the filter and the computed column of \<open>TestTransform\<close>.\<close>

definition test_row :: Row where
  "test_row =
     \<lparr>row_schema = [(''a'', TString), (''b'', TTimestamp), (''c'', TInt32)],
      row_columns = [(''a'', VStr ''hello''), (''b'', VTime 0 0), (''c'', VOther)]\<rparr>"


definition dataColumn :: Computed where
  "dataColumn = \<lparr>comp_Name = ''data'', comp_Type = TJSON, comp_Value = (\<lambda>row. VJSON ''{}'')\<rparr>"

definition no_parse :: "string \<Rightarrow> Type \<Rightarrow> val option" where
  "no_parse str t = None"

text \<open>
  One row of \<open>TestColumns\<close> in column_test.go: the appends of the row in order, then
  \<open>FillNulls\<close>.
\<close>

fun append_row :: "sizing \<Rightarrow> Columns \<Rightarrow> (string \<times> val \<times> Type) list \<Rightarrow> error + Columns" where
  "append_row sz c [] = Inr (snd (FillNulls sz c))"
| "append_row sz c ((name, v, typ) # rest) =
     (case Append sz c name v typ of
        Inl e \<Rightarrow> Inl e
      | Inr (added, c') \<Rightarrow> append_row sz c' rest)"

fun append_rows :: "sizing \<Rightarrow> Columns \<Rightarrow> (string \<times> val \<times> Type) list list \<Rightarrow> error + Columns" where
  "append_rows sz c [] = Inr c"
| "append_rows sz c (row # rest) =
     (case append_row sz c row of
        Inl e \<Rightarrow> Inl e
      | Inr c' \<Rightarrow> append_rows sz c' rest)"

section \<open>Properties of column sets\<close>

lemma Count_nonneg: "0 \<le> Count col"
  by (simp add: Count_def)

lemma Max_from_ge_init: "m \<le> Max_from m c"
proof (induction c arbitrary: m)
  case Nil
  show ?case by simp
next
  case (Cons p c)
  obtain n col where p: "p = (n, col)" by (cases p)
  have "(if Count col > m then Count col else m) \<le> Max_from (if Count col > m then Count col else m) c"
    by (rule Cons.IH)
  then show ?case unfolding p by (simp split: if_splits)
qed

lemma Max_from_ge_mem: "(n, col) \<in> set c \<Longrightarrow> Count col \<le> Max_from m c"
proof (induction c arbitrary: m)
  case Nil
  then show ?case by simp
next
  case (Cons p c)
  obtain n' col' where p: "p = (n', col')" by (cases p)
  show ?case
  proof (cases "(n, col) = p")
    case True
    then have eq: "col' = col" using p by simp
    have "(if Count col > m then Count col else m) \<le> Max_from (if Count col > m then Count col else m) c"
      by (rule Max_from_ge_init)
    then show ?thesis unfolding p eq by (simp split: if_splits)
  next
    case False
    then have "(n, col) \<in> set c" using Cons.prems by simp
    then show ?thesis unfolding p by (simp add: Cons.IH)
  qed
qed

lemma Max_from_le_bound:
  "m \<le> b \<Longrightarrow> (\<And>n col. (n, col) \<in> set c \<Longrightarrow> Count col \<le> b) \<Longrightarrow> Max_from m c \<le> b"
proof (induction c arbitrary: m)
  case Nil
  then show ?case by simp
next
  case (Cons p c)
  obtain n col where p: "p = (n, col)" by (cases p)
  have cb: "Count col \<le> b" using Cons.prems(2) [of n col] p by simp
  have "Max_from (if Count col > m then Count col else m) c \<le> b"
  proof (rule Cons.IH)
    show "(if Count col > m then Count col else m) \<le> b" using cb Cons.prems(1) by simp
  next
    fix n' col' assume "(n', col') \<in> set c"
    then show "Count col' \<le> b" using Cons.prems(2) [of n' col'] by simp
  qed
  then show ?case unfolding p by simp
qed

lemma Max_of_nonneg: "0 \<le> Max_of c"
  unfolding Max_of_def by (rule Max_from_ge_init)

lemma Max_of_ge_mem: "(n, col) \<in> set c \<Longrightarrow> Count col \<le> Max_of c"
  unfolding Max_of_def by (rule Max_from_ge_mem)

lemma Max_of_all_equal:
  assumes "c \<noteq> []" and "0 \<le> b" and "\<And>n col. (n, col) \<in> set c \<Longrightarrow> Count col = b"
  shows "Max_of c = b"
proof (rule antisym)
  show "Max_of c \<le> b"
    unfolding Max_of_def using assms(2,3) by (intro Max_from_le_bound) auto
next
  obtain n col where "(n, col) \<in> set c" using assms(1) by (cases c) auto
  then show "b \<le> Max_of c" using Max_of_ge_mem assms(3) by metis
qed

lemma append_nulls_col:
  "snd (append_nulls sz k (bytes, col)) = col\<lparr>cells := cells col @ replicate k None\<rparr>"
proof (induction k arbitrary: bytes col)
  case 0
  show ?case by simp
next
  case (Suc k)
  show ?case
    by (simp add: col_Append_def cell_of_def Suc.IH replicate_app_Cons_same)
qed

lemma fill_each_cols:
  "snd (fill_each sz mx bytes c) = map (\<lambda>(n, col). (n, pad_to mx col)) c"
proof (induction c arbitrary: bytes)
  case Nil
  show ?case by simp
next
  case (Cons p c)
  obtain n col where p: "p = (n, col)" by (cases p)
  obtain s1 col1 where a: "append_nulls sz (nat (mx - Count col)) (bytes, col) = (s1, col1)"
    by (cases "append_nulls sz (nat (mx - Count col)) (bytes, col)")
  have col1: "col1 = pad_to mx col"
    using append_nulls_col [of sz "nat (mx - Count col)" bytes col] a by (simp add: pad_to_def)
  obtain s2 rest where r: "fill_each sz mx s1 c = (s2, rest)"
    by (cases "fill_each sz mx s1 c")
  have rest: "rest = map (\<lambda>(n, col). (n, pad_to mx col)) c"
    using Cons.IH [of s1] r by simp
  show ?case unfolding p by (simp add: a r col1 rest)
qed

lemma Count_pad_to: "Count col \<le> mx \<Longrightarrow> Count (pad_to mx col) = mx"
  by (simp add: pad_to_def Count_def)

lemma pad_to_full: "Count col = mx \<Longrightarrow> pad_to mx col = col"
  by (simp add: pad_to_def)

lemma FillNulls_cols:
  "snd (FillNulls sz c) = map (\<lambda>(n, col). (n, pad_to (Max_of c) col)) c"
  unfolding FillNulls_def by (rule fill_each_cols)

lemma FillNulls_counts:
  assumes "(n, col) \<in> set (snd (FillNulls sz c))"
  shows "Count col = Max_of c"
proof -
  from assms obtain col0 where m: "(n, col0) \<in> set c" and e: "col = pad_to (Max_of c) col0"
    unfolding FillNulls_cols by auto
  have "Count col0 \<le> Max_of c" using m by (rule Max_of_ge_mem)
  then show ?thesis unfolding e by (rule Count_pad_to)
qed

lemma FillNulls_Max: "Max_of (snd (FillNulls sz c)) = Max_of c"
proof (cases "c = []")
  case True
  then show ?thesis by (simp add: FillNulls_def)
next
  case False
  then have ne: "snd (FillNulls sz c) \<noteq> []" by (simp add: FillNulls_cols)
  show ?thesis
    using ne Max_of_nonneg FillNulls_counts by (rule Max_of_all_equal)
qed

text \<open>The table of \<open>TestIsValidName\<close> in column_test.go.\<close>

lemma IsValidName_examples:
  "IsValidName ''hi'' \<and> \<not> IsValidName ''/api/v1/eta/nearby/''
   \<and> \<not> IsValidName ''15ffe3ca0ba2bef00000010955e2d54c''
   \<and> IsValidName ''b3802fb30f58430ca7fa8c6e04cb8c76'' \<and> IsValidName ''server''"
  by (simp add: is_head_def is_tail_def is_letter_def is_digit_def)

lemma Max_from_snoc:
  "Max_from m (c @ [(n, col)]) = (if Count col > Max_from m c then Count col else Max_from m c)"
  by (induction c arbitrary: m) auto

lemma Max_of_snoc:
  "Max_of (c @ [(n, col)]) = (if Count col > Max_of c then Count col else Max_of c)"
  unfolding Max_of_def by (rule Max_from_snoc)

text \<open>
  Claim C4. After \<open>FillNulls\<close> every column of the set has a count equal to the set's
  maximum, which is the maximum before the call. Each column is its old self followed by
  as many nulls as it was short of the maximum, so only nulls are appended, and a column
  that was not below the maximum is in the result as it was.
\<close>

theorem FillNulls_equal_counts:
  "(\<forall>(n, col) \<in> set (snd (FillNulls sz c)). Count col = Max_of (snd (FillNulls sz c)))
   \<and> Max_of (snd (FillNulls sz c)) = Max_of c
   \<and> snd (FillNulls sz c) =
       map (\<lambda>(n, col). (n, col\<lparr>cells := cells col @ replicate (nat (Max_of c - Count col)) None\<rparr>)) c
   \<and> (\<forall>(n, col) \<in> set c. Count col < Max_of c \<or> (n, col) \<in> set (snd (FillNulls sz c)))"
proof (intro conjI)
  show "\<forall>(n, col) \<in> set (snd (FillNulls sz c)). Count col = Max_of (snd (FillNulls sz c))"
    using FillNulls_counts [of _ _ sz c] by (auto simp add: FillNulls_Max)
  show "Max_of (snd (FillNulls sz c)) = Max_of c" by (rule FillNulls_Max)
  show "snd (FillNulls sz c) =
       map (\<lambda>(n, col). (n, col\<lparr>cells := cells col @ replicate (nat (Max_of c - Count col)) None\<rparr>)) c"
    by (simp add: FillNulls_cols pad_to_def)
  show "\<forall>(n, col) \<in> set c. Count col < Max_of c \<or> (n, col) \<in> set (snd (FillNulls sz c))"
  proof clarify
    fix n col assume m: "(n, col) \<in> set c" and nin: "(n, col) \<notin> set (snd (FillNulls sz c))"
    show "Count col < Max_of c"
    proof (rule ccontr)
      assume "\<not> Count col < Max_of c"
      then have "Count col = Max_of c" using Max_of_ge_mem [OF m] by simp
      then have "pad_to (Max_of c) col = col" by (rule pad_to_full)
      then have "(n, col) \<in> set (snd (FillNulls sz c))"
        unfolding FillNulls_cols using m by force
      then show False using nin by simp
    qed
  qed
qed

theorem FillNulls_equal_counts_witness:
  "snd (FillNulls unit_sizing level1) =
     [(''a'', \<lparr>Kind = TInt32, cells = [Some (VInt32 1), Some (VInt32 1)]\<rparr>),
      (''b'', \<lparr>Kind = TInt32, cells = [Some (VInt32 2), None]\<rparr>)]
   \<and> Max_of (snd (FillNulls unit_sizing level1)) = 2
   \<and> map (\<lambda>(n, col). Count col) (snd (FillNulls unit_sizing level1)) = [2, 2]"
proof -
  have mx: "Max_of level1 = 2" by (simp add: Max_of_def level1_def Count_def)
  have out: "snd (FillNulls unit_sizing level1) =
     [(''a'', \<lparr>Kind = TInt32, cells = [Some (VInt32 1), Some (VInt32 1)]\<rparr>),
      (''b'', \<lparr>Kind = TInt32, cells = [Some (VInt32 2), None]\<rparr>)]"
    unfolding FillNulls_cols mx by (simp add: level1_def pad_to_def Count_def)
  note levels = FillNulls_equal_counts [of unit_sizing level1]
  have m2: "Max_of (snd (FillNulls unit_sizing level1)) = 2"
    using levels [THEN conjunct2, THEN conjunct1] mx by (rule trans)
  have "\<forall>(n, col) \<in> set (snd (FillNulls unit_sizing level1)). Count col = 2"
    using levels [THEN conjunct1] unfolding m2 .
  then have "map (\<lambda>(n, col). Count col) (snd (FillNulls unit_sizing level1)) = [2, 2]"
    unfolding out by simp
  then show ?thesis using out m2 by (intro conjI)
qed

text \<open>
  Claim C6. \<open>Append\<close> with a valid name that the set does not hold yet and a type other
  than \<open>Unsupported\<close> adds one column: \<open>Max() - 1\<close> nulls (none when the maximum is zero)
  followed by the value, and the count of that column is the maximum of the set after the
  call.
\<close>

theorem Append_new_column:
  assumes "IsValidName name" and "map_of c name = None" and "typ \<noteq> TUnsupported"
  shows "\<exists>bytes col. Append sz c name v typ = Inr (bytes, c @ [(name, col)])
           \<and> col = \<lparr>Kind = typ, cells = replicate (nat (Max_of c - 1)) None @ [cell_of typ v]\<rparr>
           \<and> Count col = Max_of (c @ [(name, col)])"
proof -
  let ?col = "\<lparr>Kind = typ, cells = replicate (nat (Max_of c - 1)) None @ [cell_of typ v]\<rparr>"
  obtain b p where ap: "append_nulls sz (nat (Max_of c - 1)) (0, \<lparr>Kind = typ, cells = []\<rparr>) = (b, p)"
    by (cases "append_nulls sz (nat (Max_of c - 1)) (0, \<lparr>Kind = typ, cells = []\<rparr>)")
  have p: "p = \<lparr>Kind = typ, cells = replicate (nat (Max_of c - 1)) None\<rparr>"
    using append_nulls_col [of sz "nat (Max_of c - 1)" 0 "\<lparr>Kind = typ, cells = []\<rparr>"] ap by simp
  have call: "Append sz c name v typ = Inr (b + sz typ (cell_of typ v), c @ [(name, ?col)])"
    using assms by (simp add: Append_def NewColumn_def ap p col_Append_def Let_def)
  have "Count ?col = Max_of (c @ [(name, ?col)])"
    using Max_of_nonneg [of c] by (simp add: Max_of_snoc Count_def)
  then show ?thesis using call by blast
qed

theorem Append_new_column_witness:
  "Append unit_sizing level1 ''c'' (VStr ''hi'') TString =
     Inr (2, level1 @ [(''c'', \<lparr>Kind = TString, cells = [None, Some (VStr ''hi'')]\<rparr>)])
   \<and> Max_of (level1 @ [(''c'', \<lparr>Kind = TString, cells = [None, Some (VStr ''hi'')]\<rparr>)]) = 2"
proof -
  have v: "IsValidName ''c''" by (simp add: is_head_def is_letter_def)
  have a: "map_of level1 ''c'' = None" by (simp add: level1_def)
  have t: "TString \<noteq> TUnsupported" by simp
  have mx: "Max_of level1 = 2" by (simp add: Max_of_def level1_def Count_def)
  have b: "Append unit_sizing level1 ''c'' (VStr ''hi'') TString =
     Inr (2, level1 @ [(''c'', \<lparr>Kind = TString, cells = [None, Some (VStr ''hi'')]\<rparr>)])"
    by (simp add: Append_def a NewColumn_def mx col_Append_def cell_of_def unit_sizing_def
        is_head_def is_letter_def)
  show ?thesis
    using Append_new_column [OF v a t, of unit_sizing "VStr ''hi''"] b
    by (auto simp add: mx cell_of_def Count_def)
qed

text \<open>
  Claim C7. \<open>Append\<close> with a name that \<open>IsValidName\<close> rejects returns 0 and the set is
  the one it was: no column is created and none is appended to.
\<close>

theorem Append_invalid_name:
  "\<not> IsValidName name \<Longrightarrow> Append sz c name v typ = Inr (0, c)"
  by (simp add: Append_def)

theorem Append_invalid_name_witness:
  "\<not> IsValidName ''/api/v1''
   \<and> Append unit_sizing level1 ''/api/v1'' (VStr ''x'') TString = Inr (0, level1)"
proof -
  have h: "\<not> IsValidName ''/api/v1''" by (simp add: is_head_def is_letter_def)
  show ?thesis using h Append_invalid_name [OF h, of unit_sizing level1 "VStr ''x''" TString] by simp
qed

section \<open>Properties of the row-buffer store\<close>

lemma apply_deletes_twice:
  "apply_deletes ks (apply_deletes js entries) = apply_deletes (js @ ks) entries"
  by (auto simp add: apply_deletes_def intro: filter_cong)

lemma apply_deletes_nil: "apply_deletes [] entries = entries"
  by (simp add: apply_deletes_def)

lemma delete_loop_done:
  "delete_loop eng keys (entries, txn) = Inr (entries', txn')
   \<Longrightarrow> apply_deletes txn' entries' = apply_deletes (txn @ keys) entries"
proof (induction keys arbitrary: entries txn)
  case Nil
  then show ?case by simp
next
  case (Cons key keys)
  show ?case
  proof (cases "txn_Delete eng txn key")
    case Done
    then have "delete_loop eng keys (entries, txn @ [key]) = Inr (entries', txn')"
      using Cons.prems by simp
    then show ?thesis using Cons.IH by fastforce
  next
    case ErrTxnTooBig
    then obtain c: "txn_Commit eng entries txn = None"
      and d: "txn_Delete eng [] key = Done"
      and r: "delete_loop eng keys (apply_deletes txn entries, [key]) = Inr (entries', txn')"
      using Cons.prems by (auto simp add: Let_def split: option.splits reply.splits)
    have "apply_deletes txn' entries' = apply_deletes ([key] @ keys) (apply_deletes txn entries)"
      using Cons.IH [OF r] .
    then show ?thesis by (simp add: apply_deletes_twice)
  next
    case (Failed cause)
    then show ?thesis using Cons.prems by simp
  qed
qed

lemma delete_loop_gentle:
  assumes "gentle eng"
  shows "\<exists>entries' txn'. delete_loop eng keys (entries, txn) = Inr (entries', txn')"
proof (induction keys arbitrary: entries txn)
  case Nil
  show ?case by simp
next
  case (Cons key keys)
  have c: "\<And>e t. txn_Commit eng e t = None" and d0: "txn_Delete eng [] key = Done"
    and d: "txn_Delete eng txn key = Done \<or> txn_Delete eng txn key = ErrTxnTooBig"
    using assms unfolding gentle_def by auto
  from d show ?case
  proof
    assume "txn_Delete eng txn key = Done"
    then show ?thesis using Cons.IH [of entries "txn @ [key]"] by simp
  next
    assume "txn_Delete eng txn key = ErrTxnTooBig"
    then show ?thesis using Cons.IH [of "apply_deletes txn entries" "[key]"] c d0 by simp
  qed
qed

lemma Delete_closed: "closed s \<Longrightarrow> Delete eng s keys = (Some Closed, s)"
  by (simp add: Delete_def)

lemma Delete_success:
  assumes "\<not> closed s" and "Delete eng s keys = (None, s')"
  shows "s' = s\<lparr>db := apply_deletes keys (db s)\<rparr>"
proof -
  from assms obtain entries txn where l: "delete_loop eng keys (db s, []) = Inr (entries, txn)"
    and c: "txn_Commit eng entries txn = None" and s': "s' = s\<lparr>db := apply_deletes txn entries\<rparr>"
    by (auto simp add: Delete_def split: sum.splits option.splits prod.splits)
  show ?thesis using delete_loop_done [OF l] s' by simp
qed

lemma Delete_failure:
  assumes "\<not> closed s" and "Delete eng s keys = (Some e, s')"
  shows "\<exists>cause. e = Internal ''unable to delete'' cause"
  using assms by (auto simp add: Delete_def split: sum.splits option.splits prod.splits)

lemma Delete_gentle:
  assumes "\<not> closed s" and "gentle eng"
  shows "Delete eng s keys = (None, s\<lparr>db := apply_deletes keys (db s)\<rparr>)"
proof -
  obtain entries txn where l: "delete_loop eng keys (db s, []) = Inr (entries, txn)"
    using delete_loop_gentle [OF assms(2)] by blast
  have c: "txn_Commit eng entries txn = None" using assms(2) by (simp add: gentle_def)
  have "Delete eng s keys = (None, s\<lparr>db := apply_deletes txn entries\<rparr>)"
    using assms(1) l c by (simp add: Delete_def)
  then show ?thesis using delete_loop_done [OF l] by simp
qed

text \<open>
  Claim C8. \<open>Delete\<close> on a closed store returns the closed error and changes nothing. On
  an open store a nil result means that every given key, and nothing else, is gone from
  the store; any error it returns is an \<open>Internal\<close> error; and under an engine that
  refuses nothing but a transaction that is too big, it returns nil. When the engine
  answers \<open>ErrTxnTooBig\<close>, the loop commits the transaction, opens a new one and deletes
  the same key in it, then goes on with the rest of the keys.
\<close>

theorem Delete_contract:
  "(closed s \<longrightarrow> Delete eng s keys = (Some Closed, s))
   \<and> (\<not> closed s \<longrightarrow>
        (\<forall>s'. Delete eng s keys = (None, s') \<longrightarrow> s' = s\<lparr>db := apply_deletes keys (db s)\<rparr>)
      \<and> (\<forall>e s'. Delete eng s keys = (Some e, s') \<longrightarrow> (\<exists>cause. e = Internal ''unable to delete'' cause))
      \<and> (gentle eng \<longrightarrow> Delete eng s keys = (None, s\<lparr>db := apply_deletes keys (db s)\<rparr>)))
   \<and> (txn_Delete eng txn key = ErrTxnTooBig \<and> txn_Commit eng entries txn = None
          \<and> txn_Delete eng [] key = Done
        \<longrightarrow> delete_loop eng (key # rest) (entries, txn)
              = delete_loop eng rest (apply_deletes txn entries, [key]))"
proof (intro conjI impI allI)
  assume "closed s"
  then show "Delete eng s keys = (Some Closed, s)" by (rule Delete_closed)
next
  fix s' assume "\<not> closed s" and "Delete eng s keys = (None, s')"
  then show "s' = s\<lparr>db := apply_deletes keys (db s)\<rparr>" by (rule Delete_success)
next
  fix e s' assume "\<not> closed s" and "Delete eng s keys = (Some e, s')"
  then show "\<exists>cause. e = Internal ''unable to delete'' cause" by (rule Delete_failure)
next
  assume "\<not> closed s" and "gentle eng"
  then show "Delete eng s keys = (None, s\<lparr>db := apply_deletes keys (db s)\<rparr>)"
    by (rule Delete_gentle)
next
  assume "txn_Delete eng txn key = ErrTxnTooBig \<and> txn_Commit eng entries txn = None
          \<and> txn_Delete eng [] key = Done"
  then show "delete_loop eng (key # rest) (entries, txn)
              = delete_loop eng rest (apply_deletes txn entries, [key])"
    by simp
qed

theorem Delete_contract_witness:
  "gentle (bounded_engine 2)
   \<and> Delete (bounded_engine 2) \<lparr>closed = False, db = four_entries\<rparr> [key_a1, key_b1, key_b3]
       = (None, \<lparr>closed = False, db = [(key_b2, [3])]\<rparr>)
   \<and> txn_Delete (bounded_engine 2) [key_a1, key_b1] key_b3 = ErrTxnTooBig"
proof -
  have g: "gentle (bounded_engine 2)" by (simp add: gentle_def bounded_engine_def)
  have o: "\<not> closed \<lparr>closed = False, db = four_entries\<rparr>" by simp
  have a: "apply_deletes [key_a1, key_b1, key_b3] four_entries = [(key_b2, [3])]"
    by (simp add: apply_deletes_def four_entries_def key_a1_def key_b1_def key_b2_def key_b3_def)
  have t: "txn_Delete (bounded_engine 2) [key_a1, key_b1] key_b3 = ErrTxnTooBig"
    by (simp add: bounded_engine_def)
  note contract = Delete_contract [of "\<lparr>closed = False, db = four_entries\<rparr>" "bounded_engine 2"
        "[key_a1, key_b1, key_b3]"]
  from contract have "gentle (bounded_engine 2) \<longrightarrow>
      Delete (bounded_engine 2) \<lparr>closed = False, db = four_entries\<rparr> [key_a1, key_b1, key_b3]
        = (None, \<lparr>closed = False, db = four_entries\<rparr>
            \<lparr>db := apply_deletes [key_a1, key_b1, key_b3] (db \<lparr>closed = False, db = four_entries\<rparr>)\<rparr>)"
    using o by blast
  then have "Delete (bounded_engine 2) \<lparr>closed = False, db = four_entries\<rparr> [key_a1, key_b1, key_b3]
       = (None, \<lparr>closed = False, db = [(key_b2, [3])]\<rparr>)"
    using g a by simp
  then show ?thesis using g t by (intro conjI)
qed

section \<open>Properties of the merger and the compactor\<close>

lemma scan_empty:
  assumes "\<not> closed s" and "db s = []"
  shows "scan_buffer eng c s = (None, scan_start)"
  using assms by (simp add: scan_buffer_def Range_def iterator_items_def)

lemma Merge_nil:
  assumes "SchemaFor_ok m sch" and "Close_ok m []"
  shows "Merge m sz [] sch = Inl (Panic ''index out of range [0] with length 0'')"
  using assms by (simp add: Merge_def)

text \<open>
  Claim C10. When the schema derivation and the closing of the writer succeed, \<open>Merge\<close>
  of no blocks panics at \<open>blocks[0]\<close>. A tick over an open, empty buffer visits nothing
  and runs its last merge task on no keys, no blocks and the empty schema; with this
  merger the tick panics.
\<close>

theorem Merge_no_blocks_panics:
  "(SchemaFor_ok m sch \<and> Close_ok m []
      \<longrightarrow> Merge m sz [] sch = Inl (Panic ''index out of range [0] with length 0''))
   \<and> (\<not> closed (buffer w) \<and> db (buffer w) = []
      \<longrightarrow> scan_buffer eng c (buffer w) = (None, scan_start)
          \<and> Compact eng c w = (case run_task eng c w ([], [], []) of
                                  Inl p \<Rightarrow> Inl p
                                | Inr (r, w') \<Rightarrow> Inr (outcome_error r, [r], w')))
   \<and> (\<not> closed (buffer w) \<and> db (buffer w) = [] \<and> merger_Merge c = Merge m sz
        \<and> SchemaFor_ok m [] \<and> Close_ok m []
      \<longrightarrow> Compact eng c w = Inl (Panic ''index out of range [0] with length 0''))"
proof (intro conjI impI)
  assume "SchemaFor_ok m sch \<and> Close_ok m []"
  then show "Merge m sz [] sch = Inl (Panic ''index out of range [0] with length 0'')"
    by (simp add: Merge_nil)
next
  assume a: "\<not> closed (buffer w) \<and> db (buffer w) = []"
  then show "scan_buffer eng c (buffer w) = (None, scan_start)" by (simp add: scan_empty)
  then show "Compact eng c w = (case run_task eng c w ([], [], []) of
                                  Inl p \<Rightarrow> Inl p
                                | Inr (r, w') \<Rightarrow> Inr (outcome_error r, [r], w'))"
    by (simp add: Compact_def scan_start_def split: sum.splits prod.splits)
next
  assume a: "\<not> closed (buffer w) \<and> db (buffer w) = [] \<and> merger_Merge c = Merge m sz
        \<and> SchemaFor_ok m [] \<and> Close_ok m []"
  then have s: "scan_buffer eng c (buffer w) = (None, scan_start)" by (simp add: scan_empty)
  have "run_task eng c w ([], [], []) = Inl (Panic ''index out of range [0] with length 0'')"
    using a by (simp add: run_task_def Merge_nil)
  then show "Compact eng c w = Inl (Panic ''index out of range [0] with length 0'')"
    using s by (simp add: Compact_def scan_start_def)
qed

theorem Merge_no_blocks_panics_witness:
  "Merge plain_merger unit_sizing [] [] = Inl (Panic ''index out of range [0] with length 0'')
   \<and> Compact (bounded_engine 2) plain_compactor (world_of [])
       = Inl (Panic ''index out of range [0] with length 0'')"
proof -
  have m: "SchemaFor_ok plain_merger [] \<and> Close_ok plain_merger []"
    by (simp add: plain_merger_def)
  have w: "\<not> closed (buffer (world_of [])) \<and> db (buffer (world_of [])) = []
        \<and> merger_Merge plain_compactor = Merge plain_merger unit_sizing
        \<and> SchemaFor_ok plain_merger [] \<and> Close_ok plain_merger []"
    by (simp add: world_of_def plain_compactor_def plain_merger_def)
  note facts = Merge_no_blocks_panics [of plain_merger "[]" unit_sizing "world_of []"
      "bounded_engine 2" plain_compactor]
  from facts m have one: "Merge plain_merger unit_sizing [] [] = Inl (Panic ''index out of range [0] with length 0'')"
    by blast
  from facts w have two: "Compact (bounded_engine 2) plain_compactor (world_of [])
       = Inl (Panic ''index out of range [0] with length 0'')"
    by blast
  show ?thesis using one two by (intro conjI)
qed

text \<open>
  Claim C2, on a buffer of three records of one partition whose second value does not
  decode: the callback logs and returns true, \<open>Range\<close> stops there, and the third record
  is never visited. The tick merges the first record alone and leaves the other two in
  the buffer.
\<close>

theorem Compact_stops_at_unreadable:
  "scan_buffer (bounded_engine 2) plain_compactor (buffer (world_of unreadable_second))
     = (None, \<lparr>hash = 2, blocks = [one_row 2], merged = [key_b1], schema = [(''a'', TInt64)],
               tasks = [], scan_logged = [''compact: unable to read a buffer'']\<rparr>)
   \<and> Compact (bounded_engine 2) plain_compactor (world_of unreadable_second)
     = Inr (None, [Completed],
            \<lparr>buffer = \<lparr>closed = False, db = [(key_b2, []), (key_b3, [4])]\<rparr>,
             sink = [(bytes_of ''out'', [1])],
             logged = [''compact: unable to read a buffer'']\<rparr>)"
  by code_simp

text \<open>
  Claim C1 fails as stated: under an engine that fails the commit that deletes the first
  key, the tick below returns no error, the first key was handed to the merger and its
  output was appended, and the key is still in the buffer.
\<close>

theorem Compact_keeps_appended_key:
  "Compact (failing_engine key_a1) plain_compactor (world_of two_partitions)
     = Inr (None,
            [DeleteFailed (Internal ''unable to delete'' ''engine: commit failed''), Completed],
            \<lparr>buffer = \<lparr>closed = False, db = [(key_a1, [1]), (key_b1, [2])]\<rparr>,
             sink = [(bytes_of ''out'', [1]), (bytes_of ''out'', [1])],
             logged = [''compact: unable to delete a key'']\<rparr>)
   \<and> keys_where appended
        (tick_tasks (snd (scan_buffer (failing_engine key_a1) plain_compactor
                            (buffer (world_of two_partitions)))))
        [DeleteFailed (Internal ''unable to delete'' ''engine: commit failed''), Completed]
       = [key_a1, key_b2]
   \<and> stored \<lparr>buffer = \<lparr>closed = False, db = [(key_a1, [1]), (key_b1, [2])]\<rparr>,
             sink = [(bytes_of ''out'', [1]), (bytes_of ''out'', [1])],
             logged = [''compact: unable to delete a key'']\<rparr> key_a1"
  by code_simp

lemma apply_deletes_subset: "set (apply_deletes ks entries) \<subseteq> set entries"
  by (auto simp add: apply_deletes_def)

lemma delete_loop_subset:
  "(delete_loop eng keys (entries, txn) = Inr (entries', txn') \<longrightarrow> set entries' \<subseteq> set entries)
   \<and> (delete_loop eng keys (entries, txn) = Inl (cause, entries') \<longrightarrow> set entries' \<subseteq> set entries)"
proof (induction keys arbitrary: entries txn)
  case Nil
  show ?case by simp
next
  case (Cons key keys)
  show ?case
  proof (cases "txn_Delete eng txn key")
    case Done
    then show ?thesis using Cons.IH [of entries "txn @ [key]"] by simp
  next
    case (Failed c)
    then show ?thesis by simp
  next
    case ErrTxnTooBig
    note big = this
    show ?thesis
    proof (cases "txn_Commit eng entries txn")
      case (Some c)
      then show ?thesis using big by simp
    next
      case None
      note ok = this
      show ?thesis
      proof (cases "txn_Delete eng [] key")
        case Done
        then show ?thesis
          using big ok Cons.IH [of "apply_deletes txn entries" "[key]"]
            apply_deletes_subset [of txn entries]
          by (simp add: Let_def) blast
      next
        case ErrTxnTooBig
        then show ?thesis using big ok apply_deletes_subset [of txn entries] by (auto simp add: Let_def)
      next
        case (Failed c)
        then show ?thesis using big ok apply_deletes_subset [of txn entries] by (auto simp add: Let_def)
      qed
    qed
  qed
qed

lemma Delete_subset:
  assumes "Delete eng s keys = (r, s')"
  shows "set (db s') \<subseteq> set (db s)"
proof (cases "closed s")
  case True
  then show ?thesis using assms by (simp add: Delete_def)
next
  case False
  show ?thesis
  proof (cases "delete_loop eng keys (db s, [])")
    case (Inl p)
    obtain cause entries where p: "p = (cause, entries)" by (cases p)
    have "set entries \<subseteq> set (db s)" using delete_loop_subset Inl p by blast
    then show ?thesis using assms False Inl p by (auto simp add: Delete_def)
  next
    case (Inr p)
    obtain entries txn where p: "p = (entries, txn)" by (cases p)
    have sub: "set entries \<subseteq> set (db s)" using delete_loop_subset Inr p by blast
    show ?thesis
    proof (cases "txn_Commit eng entries txn")
      case None
      then show ?thesis
        using assms False Inr p sub apply_deletes_subset [of txn entries]
        by (auto simp add: Delete_def)
    next
      case (Some c)
      then show ?thesis using assms False Inr p sub by (auto simp add: Delete_def)
    qed
  qed
qed

lemma Delete_nil_gone:
  assumes "Delete eng s keys = (None, s')" and "k \<in> set keys"
  shows "k \<notin> set (map fst (db s'))"
proof -
  have open_store: "\<not> closed s" using assms(1) by (auto simp add: Delete_def split: if_splits)
  have "s' = s\<lparr>db := apply_deletes keys (db s)\<rparr>"
    using open_store assms(1) by (rule Delete_success)
  then show ?thesis using assms(2) by (auto simp add: apply_deletes_def)
qed

lemma run_task_shrinks:
  assumes "run_task eng c w t = Inr (r, w')"
  shows "set (db (buffer w')) \<subseteq> set (db (buffer w))"
proof -
  obtain keys blks sch where t: "t = (keys, blks, sch)" by (cases t)
  from assms t obtain key v where m: "merger_Merge c blks sch = Inr (key, v)"
    by (auto simp add: run_task_def split: sum.splits)
  show ?thesis
  proof (cases "dest_Append c (sink w) key v")
    case (Some e)
    then show ?thesis using assms t m by (auto simp add: run_task_def)
  next
    case None
    obtain err b where d: "Delete eng (buffer w) keys = (err, b)"
      by (cases "Delete eng (buffer w) keys")
    have sub: "set (db b) \<subseteq> set (db (buffer w))" using d by (rule Delete_subset)
    have "buffer w' = b"
      using assms t m None d by (auto simp add: run_task_def Let_def split: option.splits)
    then show ?thesis using sub by simp
  qed
qed

lemma run_task_completed:
  assumes "run_task eng c w t = Inr (Completed, w')" and "k \<in> set (fst t)"
  shows "\<not> stored w' k"
proof -
  obtain keys blks sch where t: "t = (keys, blks, sch)" by (cases t)
  from assms(1) t obtain key v where m: "merger_Merge c blks sch = Inr (key, v)"
    by (auto simp add: run_task_def split: sum.splits)
  have a: "dest_Append c (sink w) key v = None"
    using assms(1) t m by (auto simp add: run_task_def split: option.splits)
  obtain err b where d: "Delete eng (buffer w) keys = (err, b)"
    by (cases "Delete eng (buffer w) keys")
  have e: "err = None" and b: "buffer w' = b"
    using assms(1) t m a d by (auto simp add: run_task_def Let_def split: option.splits)
  have "k \<notin> set (map fst (db b))"
    using d e assms(2) t Delete_nil_gone [of eng "buffer w" keys b k] by simp
  then show ?thesis using b by (simp add: stored_def)
qed

lemma stored_shrinks:
  "set (db (buffer w')) \<subseteq> set (db (buffer w)) \<Longrightarrow> stored w' k \<Longrightarrow> stored w k"
  by (auto simp add: stored_def)

lemma keys_where_Cons:
  "keys_where P (t # ts) (r # rs) = (if P r then fst t else []) @ keys_where P ts rs"
  by (simp add: keys_where_def)

lemma keys_where_snoc:
  "length ts = length rs \<Longrightarrow>
   keys_where P (ts @ [t]) (rs @ [r]) = keys_where P ts rs @ (if P r then fst t else [])"
  by (simp add: keys_where_def)

lemma completed_iff: "completed r \<longleftrightarrow> r = Completed"
  by (cases r) simp_all

lemma outcome_error_None: "outcome_error r = None \<longleftrightarrow> r = Completed"
  by (cases r) simp_all

lemma run_tasks_facts:
  "run_tasks eng c w ts = Inr (rs, w') \<Longrightarrow>
     length rs = length ts
     \<and> set (db (buffer w')) \<subseteq> set (db (buffer w))
     \<and> (\<forall>k \<in> set (keys_where completed ts rs). \<not> stored w' k)"
proof (induction ts arbitrary: w rs)
  case Nil
  then show ?case by (simp add: keys_where_def)
next
  case (Cons t ts)
  from Cons.prems obtain r w1 where one: "run_task eng c w t = Inr (r, w1)"
    by (auto split: sum.splits)
  from Cons.prems one obtain rs1 where rest: "run_tasks eng c w1 ts = Inr (rs1, w')"
    and rs: "rs = r # rs1"
    by (auto split: sum.splits)
  note ih = Cons.IH [OF rest]
  have s1: "set (db (buffer w1)) \<subseteq> set (db (buffer w))" using one by (rule run_task_shrinks)
  have len: "length rs = length (t # ts)" using ih rs by simp
  have sub: "set (db (buffer w')) \<subseteq> set (db (buffer w))" using ih s1 by blast
  have gone: "\<forall>k \<in> set (keys_where completed (t # ts) rs). \<not> stored w' k"
  proof
    fix k assume "k \<in> set (keys_where completed (t # ts) rs)"
    then have "(completed r \<and> k \<in> set (fst t)) \<or> k \<in> set (keys_where completed ts rs1)"
      unfolding rs keys_where_Cons by (auto split: if_splits)
    then show "\<not> stored w' k"
    proof
      assume h: "completed r \<and> k \<in> set (fst t)"
      then have "r = Completed" by (simp add: completed_iff)
      then have "\<not> stored w1 k" using one h run_task_completed by blast
      then show ?thesis using ih stored_shrinks by blast
    next
      assume "k \<in> set (keys_where completed ts rs1)"
      then show ?thesis using ih by blast
    qed
  qed
  show ?case using len sub gone by (intro conjI)
qed

lemma Compact_parts:
  assumes "scan_buffer eng c (buffer w) = (None, st)" and "Compact eng c w = Inr (r, rs, w')"
  shows "\<exists>rs0 w1 r1. run_tasks eng c (w\<lparr>logged := logged w @ scan_logged st\<rparr>) (tasks st) = Inr (rs0, w1)
           \<and> run_task eng c w1 (merged st, blocks st, schema st) = Inr (r1, w')
           \<and> rs = rs0 @ [r1] \<and> r = outcome_error r1"
  using assms by (auto simp add: Compact_def Let_def split: sum.splits prod.splits)

lemma Compact_facts:
  assumes "scan_buffer eng c (buffer w) = (None, st)" and "Compact eng c w = Inr (None, rs, w')"
  shows "length rs = length (tick_tasks st) \<and> last rs = Completed
         \<and> (\<forall>k \<in> set (merged st). \<not> stored w' k)
         \<and> (\<forall>k \<in> set (keys_where completed (tick_tasks st) rs). \<not> stored w' k)"
proof -
  from Compact_parts [OF assms] obtain rs0 w1 r1 where
    a: "run_tasks eng c (w\<lparr>logged := logged w @ scan_logged st\<rparr>) (tasks st) = Inr (rs0, w1)"
    and b: "run_task eng c w1 (merged st, blocks st, schema st) = Inr (r1, w')"
    and rs: "rs = rs0 @ [r1]" and r: "None = outcome_error r1"
    by blast
  have r1: "r1 = Completed" using r outcome_error_None [of r1] by simp
  note f = run_tasks_facts [OF a]
  have len0: "length (tasks st) = length rs0" using f by simp
  have shr: "set (db (buffer w')) \<subseteq> set (db (buffer w1))" using b by (rule run_task_shrinks)
  have last_gone: "\<forall>k \<in> set (merged st). \<not> stored w' k"
    using b r1 run_task_completed [of eng c w1 "(merged st, blocks st, schema st)" w'] by simp
  have kw: "keys_where completed (tick_tasks st) rs
      = keys_where completed (tasks st) rs0 @ merged st"
    unfolding tick_tasks_def rs using keys_where_snoc [OF len0] r1 by simp
  have all_gone: "\<forall>k \<in> set (keys_where completed (tick_tasks st) rs). \<not> stored w' k"
    unfolding kw using f last_gone stored_shrinks [OF shr] by auto
  show ?thesis using len0 rs r1 last_gone all_gone by (simp add: tick_tasks_def)
qed

lemma run_task_append_failed:
  assumes "merger_Merge c blks sch = Inr (key, v)" and "dest_Append c (sink w) key v = Some e"
  shows "run_task eng c w (keys, blks, sch)
           = Inr (AppendFailed e, w\<lparr>logged := logged w @ [''compact: unable to merge'']\<rparr>)"
  using assms by (simp add: run_task_def)

lemma run_task_appended:
  assumes "merger_Merge c blks sch = Inr (key, v)" and "dest_Append c (sink w) key v = None"
  shows "\<exists>r w'. run_task eng c w (keys, blks, sch) = Inr (r, w') \<and> appended r
            \<and> sink w' = sink w @ [(key, v)]
            \<and> (outcome_error r, buffer w') = Delete eng (buffer w) keys"
proof -
  obtain err b where d: "Delete eng (buffer w) keys = (err, b)"
    by (cases "Delete eng (buffer w) keys")
  show ?thesis
  proof (cases err)
    case None
    then show ?thesis using assms d by (simp add: run_task_def)
  next
    case (Some x)
    then show ?thesis using assms d by (simp add: run_task_def)
  qed
qed

text \<open>
  Claim C1, amended. A merge task appends the merger's output to the destination first.
  When that append returns an error the task returns it and the buffer is as it was; when
  it succeeds the output is in the destination and the task calls \<open>Delete\<close> with its keys
  and returns what \<open>Delete\<close> returns. After a tick that returned no error, the last task
  has completed, and every key of a task that completed (its append and its delete both
  succeeded), the keys of the last task among them, is gone from the buffer.
\<close>

theorem Compact_deletes_completed:
  "(merger_Merge c blks sch = Inr (key, v) \<and> dest_Append c (sink w) key v = Some e
      \<longrightarrow> run_task eng c w (keys, blks, sch)
            = Inr (AppendFailed e, w\<lparr>logged := logged w @ [''compact: unable to merge'']\<rparr>))
   \<and> (merger_Merge c blks sch = Inr (key, v) \<and> dest_Append c (sink w) key v = None
      \<longrightarrow> (\<exists>r w'. run_task eng c w (keys, blks, sch) = Inr (r, w') \<and> appended r
              \<and> sink w' = sink w @ [(key, v)]
              \<and> (outcome_error r, buffer w') = Delete eng (buffer w) keys))
   \<and> (scan_buffer eng c (buffer w) = (None, st) \<and> Compact eng c w = Inr (None, rs, after)
      \<longrightarrow> length rs = length (tick_tasks st) \<and> last rs = Completed
          \<and> (\<forall>k \<in> set (merged st). \<not> stored after k)
          \<and> (\<forall>k \<in> set (keys_where completed (tick_tasks st) rs). \<not> stored after k))"
proof (intro conjI impI)
  assume "merger_Merge c blks sch = Inr (key, v) \<and> dest_Append c (sink w) key v = Some e"
  then show "run_task eng c w (keys, blks, sch)
            = Inr (AppendFailed e, w\<lparr>logged := logged w @ [''compact: unable to merge'']\<rparr>)"
    by (simp add: run_task_append_failed)
next
  assume "merger_Merge c blks sch = Inr (key, v) \<and> dest_Append c (sink w) key v = None"
  then show "\<exists>r w'. run_task eng c w (keys, blks, sch) = Inr (r, w') \<and> appended r
              \<and> sink w' = sink w @ [(key, v)]
              \<and> (outcome_error r, buffer w') = Delete eng (buffer w) keys"
    using run_task_appended by blast
next
  assume h: "scan_buffer eng c (buffer w) = (None, st) \<and> Compact eng c w = Inr (None, rs, after)"
  then have f: "length rs = length (tick_tasks st) \<and> last rs = Completed
         \<and> (\<forall>k \<in> set (merged st). \<not> stored after k)
         \<and> (\<forall>k \<in> set (keys_where completed (tick_tasks st) rs). \<not> stored after k)"
    using Compact_facts [of eng c w st rs after] by blast
  from f show "length rs = length (tick_tasks st)" by blast
  from f show "last rs = Completed" by blast
  from f show "\<forall>k \<in> set (merged st). \<not> stored after k" by blast
  from f show "\<forall>k \<in> set (keys_where completed (tick_tasks st) rs). \<not> stored after k" by blast
qed

theorem Compact_deletes_completed_witness:
  "scan_buffer (bounded_engine 2) plain_compactor (buffer (world_of two_partitions))
     = (None, scan_of_two)
   \<and> Compact (bounded_engine 2) plain_compactor (world_of two_partitions)
     = Inr (None, [Completed, Completed], after_tick)
   \<and> keys_where completed (tick_tasks scan_of_two) [Completed, Completed] = [key_a1, key_b2]
   \<and> \<not> stored after_tick key_a1 \<and> \<not> stored after_tick key_b2"
proof -
  have s: "scan_buffer (bounded_engine 2) plain_compactor (buffer (world_of two_partitions))
     = (None, scan_of_two)"
    by code_simp
  have t: "Compact (bounded_engine 2) plain_compactor (world_of two_partitions)
     = Inr (None, [Completed, Completed], after_tick)"
    by code_simp
  have k: "keys_where completed (tick_tasks scan_of_two) [Completed, Completed] = [key_a1, key_b2]"
    by code_simp
  note tick = Compact_deletes_completed [where c = plain_compactor
      and w = "world_of two_partitions" and eng = "bounded_engine 2" and st = scan_of_two
      and rs = "[Completed, Completed]" and after = after_tick]
  from tick s t have g: "\<forall>k \<in> set (keys_where completed (tick_tasks scan_of_two) [Completed, Completed]).
      \<not> stored after_tick k"
    by blast
  have "\<not> stored after_tick key_a1" and "\<not> stored after_tick key_b2"
    using g unfolding k by simp_all
  then show ?thesis using s t k by (intro conjI)
qed










section \<open>Properties of keys and of the transformation of rows\<close>










section \<open>The scenarios of the tests\<close>

text \<open>
  \<open>TestColumns\<close>: three rows over the columns a, b, c and d, a rejected name and an
  unsupported type among the appends (1.5 is the float of bits 0x3FF8000000000000).
\<close>

lemma TestColumns_levels:
  "append_rows unit_sizing []
     [[(''a'', VInt32 1, TInt32), (''b'', VInt32 2, TInt32), (''123'', VInt32 2, TInt32),
       (''x'', VOther, TUnsupported)],
      [(''a'', VInt32 1, TInt32), (''c'', VStr ''hi'', TString)],
      [(''b'', VInt32 1, TInt32), (''c'', VStr ''hi'', TString),
       (''d'', VFloat64 0x3FF8000000000000, TFloat64)]]
   = Inr [(''a'', \<lparr>Kind = TInt32, cells = [Some (VInt32 1), Some (VInt32 1), None]\<rparr>),
          (''b'', \<lparr>Kind = TInt32, cells = [Some (VInt32 2), None, Some (VInt32 1)]\<rparr>),
          (''c'', \<lparr>Kind = TString, cells = [None, Some (VStr ''hi''), Some (VStr ''hi'')]\<rparr>),
          (''d'', \<lparr>Kind = TFloat64, cells = [None, None, Some (VFloat64 0x3FF8000000000000)]\<rparr>)]"
  by code_simp

text \<open>\<open>TestTransform_NoFilter\<close>: without a filter the new row has the four columns.\<close>

lemma TestTransform_NoFilter:
  "Transform no_parse [test_row] 0 [dataColumn] None
   = Inr (1, [test_row,
              \<lparr>row_schema = [(''a'', TString), (''b'', TTimestamp), (''c'', TInt32), (''data'', TJSON)],
               row_columns = [(''a'', VStr ''hello''), (''b'', VTime 0 0), (''c'', VOther),
                              (''data'', VJSON ''{}'')]\<rparr>])"
  by code_simp

end
